theory Spec2Isabelle
  imports Complex_Main "HOL-Library.Multiset" "HOL-Library.Product_Lexorder"
begin

section \<open>Numbers\<close>

text \<open>
  The scanner computes with Python and numpy floats.  The embedding idealises the finite
  ones as real numbers: every arithmetic operation on them is exact.  Where the source
  divides Python floats by zero it raises, which is a branch of the model.  Where it
  divides a numpy float by zero it goes on with an IEEE infinity or NaN instead of
  raising; \<open>npfloat\<close> adds these three values to the reals.  A zero that is read from the
  terminal or the data frame counts as \<open>+0.0\<close>.
\<close>

datatype npfloat = Fin real | PInf | NInf | NaN

text \<open>The comparison \<open><\<close> of floats: false as soon as one side is NaN.\<close>

fun fl_lt :: "npfloat \<Rightarrow> npfloat \<Rightarrow> bool" where
  "fl_lt (Fin a) (Fin b) = (a < b)"
| "fl_lt (Fin a) PInf = True"
| "fl_lt NInf (Fin b) = True"
| "fl_lt NInf PInf = True"
| "fl_lt _ _ = False"

text \<open>The comparison \<open><=\<close> of floats.\<close>

fun fl_le :: "npfloat \<Rightarrow> npfloat \<Rightarrow> bool" where
  "fl_le (Fin a) (Fin b) = (a \<le> b)"
| "fl_le (Fin a) PInf = True"
| "fl_le NInf (Fin b) = True"
| "fl_le NInf PInf = True"
| "fl_le NInf NInf = True"
| "fl_le PInf PInf = True"
| "fl_le _ _ = False"

text \<open>A rank that orders the floats other than NaN as \<open><\<close> does.\<close>

fun fl_rank :: "npfloat \<Rightarrow> nat \<times> real" where
  "fl_rank NInf = (0, 0)"
| "fl_rank (Fin a) = (1, a)"
| "fl_rank PInf = (2, 0)"
| "fl_rank NaN = (3, 0)"

text \<open>
  Python's \<open>min(a, b)\<close> and \<open>max(a, b)\<close> keep the first argument unless the second is
  strictly smaller, respectively strictly greater.
\<close>

definition py_min :: "npfloat \<Rightarrow> npfloat \<Rightarrow> npfloat" where
  "py_min a b = (if fl_lt b a then b else a)"

definition py_max :: "npfloat \<Rightarrow> npfloat \<Rightarrow> npfloat" where
  "py_max a b = (if fl_lt a b then b else a)"

fun fl_add :: "npfloat \<Rightarrow> npfloat \<Rightarrow> npfloat" where
  "fl_add (Fin a) (Fin b) = Fin (a + b)"
| "fl_add NaN _ = NaN"
| "fl_add _ NaN = NaN"
| "fl_add PInf NInf = NaN"
| "fl_add NInf PInf = NaN"
| "fl_add PInf _ = PInf"
| "fl_add _ PInf = PInf"
| "fl_add NInf _ = NInf"
| "fl_add _ NInf = NInf"

text \<open>The product of a finite constant and a float.\<close>

fun fl_scale :: "real \<Rightarrow> npfloat \<Rightarrow> npfloat" where
  "fl_scale k (Fin a) = Fin (k * a)"
| "fl_scale k PInf = (if 0 < k then PInf else if k < 0 then NInf else NaN)"
| "fl_scale k NInf = (if 0 < k then NInf else if k < 0 then PInf else NaN)"
| "fl_scale k NaN = NaN"

definition fl_sub :: "npfloat \<Rightarrow> npfloat \<Rightarrow> npfloat" where
  "fl_sub a b = fl_add a (fl_scale (- 1) b)"

text \<open>The quotient of a float by a finite constant that is not zero.\<close>

definition fl_div_by :: "npfloat \<Rightarrow> real \<Rightarrow> npfloat" where
  "fl_div_by a k = fl_scale (1 / k) a"

text \<open>
  numpy's division of two finite floats: a zero divisor gives NaN for a zero dividend and
  an infinity otherwise, whose sign is that of the dividend, reversed when the divisor
  is \<open>-0.0\<close> (\<open>negative_zero\<close>).
\<close>

definition np_truediv :: "real \<Rightarrow> real \<Rightarrow> bool \<Rightarrow> npfloat" where
  "np_truediv x y negative_zero =
     (if y \<noteq> 0 then Fin (x / y)
      else if x = 0 then NaN
      else if (0 < x) \<noteq> negative_zero then PInf else NInf)"

text \<open>Python's \<open>round(x)\<close>: the nearest integer, a tie going to the even neighbour.\<close>

definition py_round :: "real \<Rightarrow> int" where
  "py_round x =
     (let f = \<lfloor>x\<rfloor>; d = x - of_int f
      in if d < 1 / 2 then f
         else if 1 / 2 < d then f + 1
         else if even f then f else f + 1)"

text \<open>Python's \<open>round(x, 1)\<close>: the same rounding at the first decimal.\<close>

definition round1 :: "real \<Rightarrow> real" where
  "round1 x = of_int (py_round (x * 10)) / 10"

text \<open>\<open>round(x, 1)\<close> returns an infinity or NaN as it is.\<close>

fun fl_round1 :: "npfloat \<Rightarrow> npfloat" where
  "fl_round1 (Fin x) = Fin (round1 x)"
| "fl_round1 x = x"

section \<open>Configuration (\<open>PropGuardConfig\<close>)\<close>

definition ATR_PERIOD :: nat where "ATR_PERIOD = 14"
definition ATR_MULTIPLIER :: real where "ATR_MULTIPLIER = 1.5"
definition LOOKBACK :: nat where "LOOKBACK = 20"
definition EMA_PERIOD :: nat where "EMA_PERIOD = 200"
definition RSI_PERIOD :: nat where "RSI_PERIOD = 14"
definition ADX_PERIOD :: nat where "ADX_PERIOD = 14"

section \<open>Data\<close>

datatype bias = NEUTRAL | BULLISH | BEARISH

datatype timeframe = TIMEFRAME_H1

text \<open>
  The last row of the data frame (\<open>curr = df.iloc[-1]\<close>): the close of the latest bar
  and the indicator values that the indicator library computed for it.
\<close>

record curr_row =
  close :: real
  ema :: real
  atr :: real
  rsi :: real
  adx :: real
  dcu :: real
  dcl :: real

record tick =
  bid :: real
  ask :: real

record symbol_info =
  point :: real
  trade_tick_value :: real
  volume_step :: real
  volume_min :: real
  volume_max :: real

record account_info =
  balance :: real
  equity :: real

text \<open>
  What the terminal answers during one cycle.  \<open>copy_rates_from_pos\<close> gives the number
  of bars returned (\<open>None\<close> when the call returns \<open>None\<close>); \<open>last_row\<close> is \<open>None\<close> when the
  indicator stage raises.
\<close>

record terminal =
  copy_rates_from_pos :: "string \<Rightarrow> nat option"
  last_row :: "string \<Rightarrow> curr_row option"
  symbol_info_tick :: "string \<Rightarrow> tick option"
  symbol_info_of :: "string \<Rightarrow> symbol_info option"
  account_info_of :: "account_info option"

text \<open>The fields of \<open>ScannerWorker\<close>.\<close>

record worker =
  is_running :: bool
  active_symbols :: "string list"
  risk_per_trade :: real
  rr_ratio :: real
  timeframe_of :: timeframe
  initial_equity :: real

text \<open>The dictionary returned by \<open>analyze_symbol\<close>.\<close>

record opportunity =
  symbol :: string
  score :: npfloat
  bias :: bias
  price :: real
  sl :: real
  tp :: real
  lots :: real
  adx_out :: real

datatype py_exception =
  AttributeError | ZeroDivisionError | RoundNonFinite | IndicatorError

section \<open>\<open>ScannerWorker.__init__\<close> and \<open>set_config\<close>\<close>

definition ScannerWorker_init :: worker where
  "ScannerWorker_init =
     \<lparr>is_running = False, active_symbols = [], risk_per_trade = 0.5, rr_ratio = 1.5,
      timeframe_of = TIMEFRAME_H1, initial_equity = 0.0\<rparr>"

definition set_config :: "string list \<Rightarrow> real \<Rightarrow> real \<Rightarrow> worker \<Rightarrow> worker" where
  "set_config symbols risk rr w =
     w\<lparr>active_symbols := symbols, risk_per_trade := risk, rr_ratio := rr\<rparr>"

text \<open>The initial values of the two spin boxes of \<open>ScannerGUI.create_top_bar\<close>.\<close>

definition spin_risk_value :: real where "spin_risk_value = 0.5"
definition spin_rr_value :: real where "spin_rr_value = 2.0"

text \<open>\<open>toggle_scan\<close> on a stopped worker with a non-empty selection.\<close>

definition toggle_scan_start :: "string list \<Rightarrow> worker \<Rightarrow> worker" where
  "toggle_scan_start selected w = set_config selected spin_risk_value spin_rr_value w"

section \<open>Scoring (\<open>analyze_symbol\<close>, lines 117 to 185)\<close>

text \<open>
  First the expressions of the source on real numbers: their values whenever no divisor
  is zero.
\<close>

definition bias_of :: "curr_row \<Rightarrow> bias" where
  "bias_of c =
     (if close c > ema c then BULLISH
      else if close c < ema c then BEARISH
      else NEUTRAL)"

definition ema_dist :: "curr_row \<Rightarrow> real" where
  "ema_dist c = \<bar>close c - ema c\<bar>"

definition trend_str :: "curr_row \<Rightarrow> real" where
  "trend_str c = min (ema_dist c / (atr c * 2.0)) 1.0"

definition adx_norm :: "curr_row \<Rightarrow> real" where
  "adx_norm c = min (max ((adx c - 20) / 25) 0) 1"

definition score_trend :: "curr_row \<Rightarrow> real" where
  "score_trend c = (0.6 * trend_str c) + (0.4 * adx_norm c)"

definition score_mom :: "bias \<Rightarrow> curr_row \<Rightarrow> real" where
  "score_mom b c =
     (if b = BULLISH then max (min ((rsi c - 50) / 25) 1) 0
      else if b = BEARISH then max (min ((50 - rsi c) / 25) 1) 0
      else 0.0)"

definition atr_pct :: "curr_row \<Rightarrow> real" where
  "atr_pct c = atr c / close c"

definition score_vol :: "curr_row \<Rightarrow> real" where
  "score_vol c = min (max ((atr_pct c - 0.0005) / 0.002) 0) 1"

definition dist_to_break :: "bias \<Rightarrow> curr_row \<Rightarrow> tick \<Rightarrow> real" where
  "dist_to_break b c t =
     (if b = BULLISH then \<bar>dcu c - ask t\<bar> else \<bar>bid t - dcl c\<bar>)"

definition score_struct :: "bias \<Rightarrow> curr_row \<Rightarrow> tick \<Rightarrow> real" where
  "score_struct b c t = 1.0 - min (dist_to_break b c t / (atr c * 1.5)) 1.0"

definition spread_points :: "tick \<Rightarrow> symbol_info \<Rightarrow> real" where
  "spread_points t si = (ask t - bid t) / point si"

definition atr_points :: "curr_row \<Rightarrow> symbol_info \<Rightarrow> real" where
  "atr_points c si = atr c / point si"

definition score_liq :: "curr_row \<Rightarrow> tick \<Rightarrow> symbol_info \<Rightarrow> real" where
  "score_liq c t si = max (1.0 - (spread_points t si / (atr_points c si * 0.2))) 0.0"

definition final_score :: "bias \<Rightarrow> curr_row \<Rightarrow> tick \<Rightarrow> symbol_info \<Rightarrow> real" where
  "final_score b c t si =
     round1 (100 * ((0.30 * score_trend c) + (0.20 * score_mom b c) + (0.15 * score_vol c)
                    + (0.25 * score_struct b c t) + (0.10 * score_liq c t si)))"

text \<open>
  The same expressions as the source evaluates them.  The ATR and the close come from the
  data frame as numpy floats, so that the quotients by \<open>atr * 2.0\<close>, by the close, by
  \<open>atr * 1.5\<close> and by \<open>atr_points * 0.2\<close> are numpy divisions.  With a zero ATR the last
  divisor is \<open>0.0 / point * 0.2\<close>, a zero with the sign of the point size.
\<close>

definition np_trend_str :: "curr_row \<Rightarrow> npfloat" where
  "np_trend_str c = py_min (np_truediv (ema_dist c) (atr c * 2.0) False) (Fin 1.0)"

definition np_score_trend :: "curr_row \<Rightarrow> npfloat" where
  "np_score_trend c = fl_add (fl_scale 0.6 (np_trend_str c)) (Fin (0.4 * adx_norm c))"

definition np_atr_pct :: "curr_row \<Rightarrow> npfloat" where
  "np_atr_pct c = np_truediv (atr c) (close c) False"

definition np_score_vol :: "curr_row \<Rightarrow> npfloat" where
  "np_score_vol c =
     py_min (py_max (fl_div_by (fl_sub (np_atr_pct c) (Fin 0.0005)) 0.002) (Fin 0)) (Fin 1)"

definition np_score_struct :: "bias \<Rightarrow> curr_row \<Rightarrow> tick \<Rightarrow> npfloat" where
  "np_score_struct b c t =
     fl_sub (Fin 1.0)
       (py_min (np_truediv (dist_to_break b c t) (atr c * 1.5) False) (Fin 1.0))"

definition np_score_liq :: "curr_row \<Rightarrow> tick \<Rightarrow> symbol_info \<Rightarrow> npfloat" where
  "np_score_liq c t si =
     py_max (fl_sub (Fin 1.0)
               (np_truediv (spread_points t si) (atr_points c si * 0.2) (point si < 0)))
       (Fin 0.0)"

definition np_final_score :: "bias \<Rightarrow> curr_row \<Rightarrow> tick \<Rightarrow> symbol_info \<Rightarrow> npfloat" where
  "np_final_score b c t si =
     fl_round1
       (fl_scale 100
          (fl_add
             (fl_add
                (fl_add
                   (fl_add (fl_scale 0.30 (np_score_trend c)) (Fin (0.20 * score_mom b c)))
                   (fl_scale 0.15 (np_score_vol c)))
                (fl_scale 0.25 (np_score_struct b c t)))
             (fl_scale 0.10 (np_score_liq c t si))))"

section \<open>Trade setup (\<open>analyze_symbol\<close>, lines 188 to 197)\<close>

definition entry_of :: "bias \<Rightarrow> tick \<Rightarrow> real" where
  "entry_of b t = (if b = BULLISH then ask t else bid t)"

definition sl_of :: "bias \<Rightarrow> curr_row \<Rightarrow> tick \<Rightarrow> real" where
  "sl_of b c t =
     (if b = BULLISH then entry_of b t - (atr c * ATR_MULTIPLIER)
      else entry_of b t + (atr c * ATR_MULTIPLIER))"

definition tp_of :: "real \<Rightarrow> bias \<Rightarrow> curr_row \<Rightarrow> tick \<Rightarrow> real" where
  "tp_of rr b c t =
     (if b = BULLISH then entry_of b t + ((entry_of b t - sl_of b c t) * rr)
      else entry_of b t - ((sl_of b c t - entry_of b t) * rr))"

definition sl_points_of :: "bias \<Rightarrow> curr_row \<Rightarrow> tick \<Rightarrow> symbol_info \<Rightarrow> real" where
  "sl_points_of b c t si = \<bar>entry_of b t - sl_of b c t\<bar> / point si"

section \<open>\<open>calculate_lot\<close>\<close>

text \<open>
  \<open>lot_of\<close> is the arithmetic of lines 224 to 227, for a step that is not zero.
\<close>

definition raw_lot_of :: "real \<Rightarrow> real \<Rightarrow> real \<Rightarrow> real" where
  "raw_lot_of risk_money sl_points tick_value = risk_money / (sl_points * tick_value)"

definition quantize :: "real \<Rightarrow> real \<Rightarrow> real" where
  "quantize raw_lot step = of_int (py_round (raw_lot / step)) * step"

definition lot_of :: "real \<Rightarrow> symbol_info \<Rightarrow> real" where
  "lot_of raw_lot si =
     (let lot = quantize raw_lot (volume_step si)
      in if lot \<le> volume_max si then max lot (volume_min si) else volume_max si)"

text \<open>
  \<open>mt5.account_info()\<close> returning \<open>None\<close> raises at \<open>.balance\<close>.  A zero step makes
  \<open>raw_lot / step\<close> an infinity or NaN, on which \<open>round\<close> raises.
\<close>

definition calculate_lot ::
  "worker \<Rightarrow> terminal \<Rightarrow> string \<Rightarrow> real \<Rightarrow> py_exception + real" where
  "calculate_lot w m symb sl_points =
     (case account_info_of m of
        None \<Rightarrow> Inl AttributeError
      | Some acct \<Rightarrow>
          (let risk_money = balance acct * (risk_per_trade w / 100.0)
           in case symbol_info_of m symb of
                None \<Rightarrow> Inr 0.0
              | Some si \<Rightarrow>
                  if trade_tick_value si = 0 \<or> sl_points = 0 then Inr 0.0
                  else if volume_step si = 0 then Inl RoundNonFinite
                  else Inr (lot_of (raw_lot_of risk_money sl_points (trade_tick_value si)) si)))"

section \<open>\<open>analyze_symbol\<close>\<close>

definition bars :: nat where "bars = 250"

text \<open>
  The body of the \<open>try\<close> block: \<open>Inl\<close> is a raised exception, \<open>Inr None\<close> an early
  \<open>return None\<close>, \<open>Inr (Some d)\<close> the returned dictionary.
\<close>

definition analyze_body ::
  "worker \<Rightarrow> terminal \<Rightarrow> string \<Rightarrow> py_exception + opportunity option" where
  "analyze_body w m symb =
     (case copy_rates_from_pos m symb of
        None \<Rightarrow> Inr None
      | Some n \<Rightarrow>
          if n < bars then Inr None
          else
            (case last_row m symb of
               None \<Rightarrow> Inl IndicatorError
             | Some c \<Rightarrow>
                 (case symbol_info_tick m symb of
                    None \<Rightarrow> Inr None
                  | Some t \<Rightarrow>
                      (let b = bias_of c
                       in case symbol_info_of m symb of
                            None \<Rightarrow> Inl AttributeError
                          | Some si \<Rightarrow>
                              if point si = 0 then Inl ZeroDivisionError
                              else
                                (let fs = np_final_score b c t si
                                 in case calculate_lot w m symb (sl_points_of b c t si) of
                                      Inl e \<Rightarrow> Inl e
                                    | Inr lot_size \<Rightarrow>
                                        Inr (Some \<lparr>symbol = symb, score = fs, bias = b,
                                                   price = entry_of b t, sl = sl_of b c t,
                                                   tp = tp_of (rr_ratio w) b c t,
                                                   lots = lot_size, adx_out = adx c\<rparr>))))))"

text \<open>\<open>except Exception: return None\<close>.\<close>

definition analyze_symbol :: "worker \<Rightarrow> terminal \<Rightarrow> string \<Rightarrow> opportunity option" where
  "analyze_symbol w m symb =
     (case analyze_body w m symb of Inl e \<Rightarrow> None | Inr r \<Rightarrow> r)"

section \<open>One cycle of \<open>run\<close> (lines 76 to 84)\<close>

text \<open>The loop over \<open>active_symbols\<close>: a dictionary is appended, \<open>None\<close> is not.\<close>

fun collect :: "worker \<Rightarrow> terminal \<Rightarrow> string list \<Rightarrow> opportunity list" where
  "collect w m [] = []"
| "collect w m (s # ss) =
     (case analyze_symbol w m s of
        None \<Rightarrow> collect w m ss
      | Some d \<Rightarrow> d # collect w m ss)"

text \<open>
  \<open>opportunities.sort(key=lambda x: x['score'], reverse=True)\<close>.  The window offers 16
  symbols, and a list of fewer than 64 elements is sorted by CPython (\<open>listobject.c\<close>, up
  to version 3.12) as follows, comparing keys with \<open><\<close> only: the list is reversed; the
  longest run at its start that never descends, or that descends strictly and is then
  reversed, is taken as it is; every further element is put into place by binary
  insertion; the result is reversed again.  On keys that \<open><\<close> orders totally this is the
  stable sort in descending order, which is also what the merges of a longer list
  produce.
\<close>

fun asc_run :: "('a \<Rightarrow> 'a \<Rightarrow> bool) \<Rightarrow> 'a \<Rightarrow> 'a list \<Rightarrow> nat" where
  "asc_run lt prev [] = 0"
| "asc_run lt prev (x # xs) = (if lt x prev then 0 else Suc (asc_run lt x xs))"

fun desc_run :: "('a \<Rightarrow> 'a \<Rightarrow> bool) \<Rightarrow> 'a \<Rightarrow> 'a list \<Rightarrow> nat" where
  "desc_run lt prev [] = 0"
| "desc_run lt prev (x # xs) = (if lt x prev then Suc (desc_run lt x xs) else 0)"

function bisect :: "('a \<Rightarrow> 'a \<Rightarrow> bool) \<Rightarrow> 'a \<Rightarrow> 'a list \<Rightarrow> nat \<Rightarrow> nat \<Rightarrow> nat" where
  "bisect lt pivot a l r =
     (if l < r
      then (let p = l + (r - l) div 2
            in if lt pivot (a ! p) then bisect lt pivot a l p
               else bisect lt pivot a (p + 1) r)
      else l)"
  by pat_completeness auto
termination
  by (relation "measure (\<lambda>(lt, pivot, a, l, r). r - l)") auto

declare bisect.simps [simp del]

definition binary_insert :: "('a \<Rightarrow> 'a \<Rightarrow> bool) \<Rightarrow> 'a list \<Rightarrow> 'a \<Rightarrow> 'a list" where
  "binary_insert lt a pivot =
     (let l = bisect lt pivot a 0 (length a) in take l a @ pivot # drop l a)"

fun listsort :: "('a \<Rightarrow> 'a \<Rightarrow> bool) \<Rightarrow> 'a list \<Rightarrow> 'a list" where
  "listsort lt (x0 # x1 # xs) =
     (if lt x1 x0
      then (let n = 2 + desc_run lt x1 xs
            in foldl (binary_insert lt) (rev (take n (x0 # x1 # xs))) (drop n (x0 # x1 # xs)))
      else (let n = 2 + asc_run lt x1 xs
            in foldl (binary_insert lt) (take n (x0 # x1 # xs)) (drop n (x0 # x1 # xs))))"
| "listsort lt xs = xs"

definition listsort_reverse :: "('a \<Rightarrow> 'a \<Rightarrow> bool) \<Rightarrow> 'a list \<Rightarrow> 'a list" where
  "listsort_reverse lt xs = rev (listsort lt (rev xs))"

definition score_lt :: "opportunity \<Rightarrow> opportunity \<Rightarrow> bool" where
  "score_lt a b = fl_lt (score a) (score b)"

text \<open>The list emitted on \<open>scanner_signal\<close>.\<close>

definition scan_cycle :: "worker \<Rightarrow> terminal \<Rightarrow> opportunity list" where
  "scan_cycle w m =
     (let opportunities = collect w m (active_symbols w)
      in listsort_reverse score_lt opportunities)"

text \<open>
  A list by score in non-increasing order: every opportunity has a score that is greater
  than or equal to the score of every later one.
\<close>

definition non_increasing :: "opportunity list \<Rightarrow> bool" where
  "non_increasing ds = sorted_wrt (\<lambda>a b. fl_le (score b) (score a)) ds"

section \<open>Example inputs\<close>

text \<open>
  A terminal snapshot used to evaluate the model: \<open>EURUSD\<close> and \<open>GBPUSD\<close> carry the same
  bullish data, \<open>USDJPY\<close> a stronger bullish setup, \<open>USDCHF\<close> a bearish one, \<open>AUDUSD\<close> a
  close equal to the EMA, \<open>NZDUSD\<close> a zero tick value, \<open>USDCAD\<close> a zero ATR, \<open>GER40\<close> a zero
  ATR and a close equal to the EMA, \<open>UKOIL\<close> a zero close, \<open>USOIL\<close> no symbol information,
  \<open>XAUUSD\<close> too few bars and \<open>BTCUSD\<close> no bars at all.
\<close>

definition ex_row :: curr_row where
  "ex_row = \<lparr>close = 1.1050, ema = 1.1000, atr = 0.0010, rsi = 70, adx = 35,
             dcu = 1.1060, dcl = 1.0990\<rparr>"

definition ex_tick :: tick where
  "ex_tick = \<lparr>bid = 1.1048, ask = 1.1052\<rparr>"

definition ex_info :: symbol_info where
  "ex_info = \<lparr>point = 0.0001, trade_tick_value = 1.0, volume_step = 0.01,
              volume_min = 0.01, volume_max = 100\<rparr>"

definition ex_account :: account_info where
  "ex_account = \<lparr>balance = 10000, equity = 10000\<rparr>"

definition ex_row_jpy :: curr_row where
  "ex_row_jpy = \<lparr>close = 150.50, ema = 150.00, atr = 0.20, rsi = 75, adx = 45,
                 dcu = 150.52, dcl = 149.00\<rparr>"

definition ex_tick_jpy :: tick where
  "ex_tick_jpy = \<lparr>bid = 150.51, ask = 150.52\<rparr>"

definition ex_info_jpy :: symbol_info where
  "ex_info_jpy = \<lparr>point = 0.001, trade_tick_value = 0.65, volume_step = 0.01,
                  volume_min = 0.01, volume_max = 100\<rparr>"

definition ex_row_chf :: curr_row where
  "ex_row_chf = \<lparr>close = 0.8950, ema = 0.9000, atr = 0.0010, rsi = 30, adx = 35,
                 dcu = 0.9010, dcl = 0.8940\<rparr>"

definition ex_tick_chf :: tick where
  "ex_tick_chf = \<lparr>bid = 0.8948, ask = 0.8952\<rparr>"

definition ex_terminal :: terminal where
  "ex_terminal =
     \<lparr>copy_rates_from_pos =
        (\<lambda>s. if s = ''XAUUSD'' then Some 100 else if s = ''BTCUSD'' then None else Some 250),
      last_row =
        (\<lambda>s. if s = ''USDJPY'' then Some ex_row_jpy
             else if s = ''USDCHF'' then Some ex_row_chf
             else if s = ''AUDUSD'' then Some (ex_row\<lparr>close := 1.1000\<rparr>)
             else if s = ''USDCAD'' then Some (ex_row\<lparr>atr := 0\<rparr>)
             else if s = ''GER40'' then Some (ex_row\<lparr>close := 1.1000, atr := 0\<rparr>)
             else if s = ''UKOIL'' then Some (ex_row\<lparr>close := 0\<rparr>)
             else Some ex_row),
      symbol_info_tick =
        (\<lambda>s. if s = ''USDJPY'' then Some ex_tick_jpy
             else if s = ''USDCHF'' then Some ex_tick_chf
             else Some ex_tick),
      symbol_info_of =
        (\<lambda>s. if s = ''USDJPY'' then Some ex_info_jpy
             else if s = ''USOIL'' then None
             else if s = ''NZDUSD'' then Some (ex_info\<lparr>trade_tick_value := 0\<rparr>)
             else Some ex_info),
      account_info_of = Some ex_account\<rparr>"

definition ex_worker :: worker where
  "ex_worker =
     toggle_scan_start [''EURUSD'', ''USOIL'', ''USDJPY'', ''XAUUSD'', ''GBPUSD'']
       ScannerWorker_init"

definition ex_worker_flat :: worker where
  "ex_worker_flat = toggle_scan_start [''EURUSD'', ''GER40'', ''USDJPY''] ScannerWorker_init"

lemmas ex_defs = ex_row_def ex_tick_def ex_info_def ex_account_def ex_row_jpy_def
  ex_row_chf_def ex_tick_chf_def
  ex_tick_jpy_def ex_info_jpy_def ex_terminal_def ex_worker_def ex_worker_flat_def
  toggle_scan_start_def
  set_config_def ScannerWorker_init_def spin_risk_value_def spin_rr_value_def

lemmas model_defs = analyze_symbol_def analyze_body_def calculate_lot_def lot_of_def
  quantize_def raw_lot_of_def sl_points_of_def tp_of_def sl_of_def entry_of_def
  final_score_def score_liq_def atr_points_def spread_points_def score_struct_def
  dist_to_break_def score_vol_def atr_pct_def score_mom_def score_trend_def adx_norm_def
  trend_str_def ema_dist_def bias_of_def bars_def ATR_MULTIPLIER_def round1_def py_round_def
  np_final_score_def np_score_liq_def np_score_struct_def np_score_vol_def np_atr_pct_def
  np_score_trend_def np_trend_str_def np_truediv_def fl_div_by_def fl_sub_def py_min_def
  py_max_def

section \<open>Rounding and sub-score bounds\<close>

lemma py_round_near: "\<bar>of_int (py_round x) - x\<bar> \<le> 1 / 2"
  unfolding py_round_def Let_def by auto

lemma py_round_of_int: "py_round (of_int k) = k"
  unfolding py_round_def Let_def by simp

lemma py_round_mono_lo: "of_int k \<le> x \<Longrightarrow> k \<le> py_round x"
  unfolding py_round_def Let_def by (auto simp: le_floor_iff) linarith+

lemma py_round_mono_hi:
  assumes "x \<le> of_int k"
  shows "py_round x \<le> k"
proof -
  have f: "\<lfloor>x\<rfloor> \<le> k"
    using assms by (simp add: floor_le_iff)
  have "\<lfloor>x\<rfloor> + 1 \<le> k" if "1 / 2 \<le> x - of_int \<lfloor>x\<rfloor>"
  proof -
    from that assms have "(of_int \<lfloor>x\<rfloor> :: real) < of_int k" by linarith
    then show ?thesis by simp
  qed
  with f show ?thesis unfolding py_round_def Let_def by auto
qed

lemma py_round_nearest: "\<bar>of_int (py_round x) - x\<bar> \<le> \<bar>of_int j - x\<bar>"
proof (cases "j = py_round x")
  case True
  then show ?thesis by simp
next
  case False
  then have "1 \<le> \<bar>j - py_round x\<bar>" by linarith
  then have "(1::real) \<le> \<bar>of_int j - of_int (py_round x)\<bar>"
    by (metis of_int_1 of_int_abs of_int_diff of_int_le_iff)
  then show ?thesis using py_round_near [of x] by linarith
qed

lemma round1_bounds:
  assumes "0 \<le> x" "x \<le> 100"
  shows "0 \<le> round1 x \<and> round1 x \<le> 100"
proof -
  have lo: "0 \<le> py_round (x * 10)"
    using assms py_round_mono_lo [of 0 "x * 10"] by simp
  have hi: "py_round (x * 10) \<le> 1000"
    using assms py_round_mono_hi [of "x * 10" 1000] by simp
  from lo hi show ?thesis unfolding round1_def by simp
qed

lemma score_trend_bounds:
  assumes "0 < atr c"
  shows "0 \<le> score_trend c \<and> score_trend c \<le> 1"
proof -
  have "0 \<le> ema_dist c / (atr c * 2.0)"
    using assms unfolding ema_dist_def by simp
  then have t: "0 \<le> trend_str c \<and> trend_str c \<le> 1"
    unfolding trend_str_def by simp
  have a: "0 \<le> adx_norm c \<and> adx_norm c \<le> 1"
    unfolding adx_norm_def by simp
  from t a show ?thesis unfolding score_trend_def by simp
qed

lemma score_mom_bounds: "0 \<le> score_mom b c \<and> score_mom b c \<le> 1"
  unfolding score_mom_def by (auto simp: min_def max_def)

lemma score_vol_bounds: "0 \<le> score_vol c \<and> score_vol c \<le> 1"
  unfolding score_vol_def by (auto simp: min_def max_def)

lemma score_struct_bounds:
  "0 < atr c \<Longrightarrow> 0 \<le> score_struct b c t \<and> score_struct b c t \<le> 1"
  unfolding score_struct_def dist_to_break_def by (auto simp: min_def)

lemma score_liq_bounds:
  assumes "0 < atr c" "0 < point si" "bid t \<le> ask t"
  shows "0 \<le> score_liq c t si \<and> score_liq c t si \<le> 1"
proof -
  have "0 \<le> spread_points t si / (atr_points c si * 0.2)"
    using assms unfolding spread_points_def atr_points_def by simp
  then show ?thesis unfolding score_liq_def by simp
qed

lemma py_min_Fin: "py_min (Fin a) (Fin b) = Fin (min a b)"
  unfolding py_min_def by (simp add: min_def)

lemma py_max_Fin: "py_max (Fin a) (Fin b) = Fin (max a b)"
  unfolding py_max_def by (simp add: max_def)

lemma fl_add_NaN_right: "fl_add x NaN = NaN"
  by (cases x) simp_all

lemma np_score_trend_Fin: "atr c \<noteq> 0 \<Longrightarrow> np_score_trend c = Fin (score_trend c)"
  unfolding np_score_trend_def np_trend_str_def score_trend_def trend_str_def np_truediv_def
  by (simp add: py_min_Fin)

lemma np_score_vol_Fin: "close c \<noteq> 0 \<Longrightarrow> np_score_vol c = Fin (score_vol c)"
  unfolding np_score_vol_def np_atr_pct_def score_vol_def atr_pct_def np_truediv_def
    fl_sub_def fl_div_by_def
  by (simp add: py_min_Fin py_max_Fin)

lemma np_score_struct_Fin:
  "atr c \<noteq> 0 \<Longrightarrow> np_score_struct b c t = Fin (score_struct b c t)"
  unfolding np_score_struct_def score_struct_def np_truediv_def fl_sub_def
  by (simp add: py_min_Fin)

lemma np_score_liq_Fin:
  "atr c \<noteq> 0 \<Longrightarrow> point si \<noteq> 0 \<Longrightarrow> np_score_liq c t si = Fin (score_liq c t si)"
  unfolding np_score_liq_def score_liq_def np_truediv_def fl_sub_def atr_points_def
  by (simp add: py_max_Fin)

lemma np_final_score_Fin:
  assumes "atr c \<noteq> 0" "close c \<noteq> 0" "point si \<noteq> 0"
  shows "np_final_score b c t si = Fin (final_score b c t si)"
  unfolding np_final_score_def final_score_def
    np_score_trend_Fin [OF assms(1)] np_score_vol_Fin [OF assms(2)]
    np_score_struct_Fin [OF assms(1)] np_score_liq_Fin [OF assms(1,3)]
  by simp

lemma np_final_score_NaN:
  assumes "atr c = 0" "close c = ema c"
  shows "np_final_score b c t si = NaN"
proof -
  have "np_trend_str c = NaN"
    unfolding np_trend_str_def np_truediv_def ema_dist_def py_min_def using assms by simp
  then have "np_score_trend c = NaN" unfolding np_score_trend_def by simp
  then show ?thesis unfolding np_final_score_def by (simp add: fl_add_NaN_right)
qed

lemma fl_lt_rank: "a \<noteq> NaN \<Longrightarrow> b \<noteq> NaN \<Longrightarrow> fl_lt a b = (fl_rank a < fl_rank b)"
  by (cases a; cases b) simp_all

lemma fl_le_rank: "a \<noteq> NaN \<Longrightarrow> b \<noteq> NaN \<Longrightarrow> fl_le a b = (fl_rank a \<le> fl_rank b)"
  by (cases a; cases b) simp_all

lemma fl_rank_eq: "(fl_rank a = fl_rank b) = (a = b)"
  by (cases a; cases b) simp_all

lemma analyze_symbol_SomeD:
  assumes "analyze_symbol w m s = Some d"
  shows "\<exists>n c t si lot_size.
           copy_rates_from_pos m s = Some n \<and> bars \<le> n \<and> last_row m s = Some c
         \<and> symbol_info_tick m s = Some t \<and> symbol_info_of m s = Some si \<and> point si \<noteq> 0
         \<and> calculate_lot w m s (sl_points_of (bias_of c) c t si) = Inr lot_size
         \<and> d = \<lparr>symbol = s,
                 score = np_final_score (bias_of c) c t si,
                 bias = bias_of c, price = entry_of (bias_of c) t, sl = sl_of (bias_of c) c t,
                 tp = tp_of (rr_ratio w) (bias_of c) c t, lots = lot_size, adx_out = adx c\<rparr>"
  using assms unfolding analyze_symbol_def analyze_body_def Let_def
  by (auto split: option.splits sum.splits if_splits)

lemma analyze_symbol_SomeI:
  assumes "copy_rates_from_pos m s = Some n" "bars \<le> n" "last_row m s = Some c"
    and "symbol_info_tick m s = Some t" "symbol_info_of m s = Some si" "point si \<noteq> 0"
    and "calculate_lot w m s (sl_points_of (bias_of c) c t si) = Inr lot_size"
  shows "analyze_symbol w m s =
           Some \<lparr>symbol = s,
                 score = np_final_score (bias_of c) c t si,
                 bias = bias_of c, price = entry_of (bias_of c) t, sl = sl_of (bias_of c) c t,
                 tp = tp_of (rr_ratio w) (bias_of c) c t, lots = lot_size, adx_out = adx c\<rparr>"
  using assms unfolding analyze_symbol_def analyze_body_def Let_def
  by (auto split: option.splits sum.splits if_splits)

section \<open>Lot sizing, the symbol loop and the sort\<close>

lemma calculate_lot_total:
  assumes "account_info_of m = Some acct" "symbol_info_of m s = Some si" "volume_step si \<noteq> 0"
  shows "\<exists>lot_size. calculate_lot w m s x = Inr lot_size"
  using assms unfolding calculate_lot_def Let_def by simp

lemma quantize_multiple:
  assumes "0 < step" "0 \<le> raw_lot"
  shows "\<exists>k::nat. quantize raw_lot step = of_nat k * step"
proof -
  have "0 \<le> raw_lot / step" using assms by simp
  then have "0 \<le> py_round (raw_lot / step)"
    using py_round_mono_lo [of 0 "raw_lot / step"] by simp
  then obtain k :: nat where "py_round (raw_lot / step) = int k"
    using nonneg_int_cases by blast
  then show ?thesis unfolding quantize_def by auto
qed

lemma quantize_nearest:
  assumes "0 < step"
  shows "\<bar>quantize raw_lot step - raw_lot\<bar> \<le> \<bar>of_int j * step - raw_lot\<bar>"
proof -
  have "\<bar>of_int (py_round (raw_lot / step)) - raw_lot / step\<bar> * step
          \<le> \<bar>of_int j - raw_lot / step\<bar> * step"
    using py_round_nearest [of "raw_lot / step" j] assms by simp
  moreover have "\<bar>x - raw_lot / step\<bar> * step = \<bar>x * step - raw_lot\<bar>" for x :: real
  proof -
    have "\<bar>x - raw_lot / step\<bar> * step = \<bar>(x - raw_lot / step) * step\<bar>"
      using assms by (simp add: abs_mult)
    also have "(x - raw_lot / step) * step = x * step - raw_lot"
      using assms by (simp add: field_simps)
    finally show ?thesis .
  qed
  ultimately show ?thesis unfolding quantize_def by simp
qed

lemma collect_map_filter: "collect w m syms = List.map_filter (analyze_symbol w m) syms"
  by (induction syms) (auto simp: map_filter_simps split: option.splits)





lemma bisect_spec:
  fixes f :: "'a \<Rightarrow> 'k::linorder"
  shows "\<lbrakk>\<forall>x \<in> set a. lt pivot x = (f pivot < f x); sorted (map f a); l \<le> r; r \<le> length a;
    \<forall>i<l. f (a ! i) \<le> f pivot; \<forall>i. r \<le> i \<and> i < length a \<longrightarrow> f pivot < f (a ! i)\<rbrakk>
   \<Longrightarrow> l \<le> bisect lt pivot a l r \<and> bisect lt pivot a l r \<le> r
     \<and> (\<forall>i < bisect lt pivot a l r. f (a ! i) \<le> f pivot)
     \<and> (\<forall>i. bisect lt pivot a l r \<le> i \<and> i < length a \<longrightarrow> f pivot < f (a ! i))"
proof (induction lt pivot a l r rule: bisect.induct)
  case (1 lt pivot a l r)
  show ?case
  proof (cases "l < r")
    case False
    then have "bisect lt pivot a l r = l" by (subst bisect.simps) simp
    with False "1.prems" show ?thesis by simp
  next
    case True
    define p where "p = l + (r - l) div 2"
    have p: "l \<le> p" "p < r" "p < length a" using True "1.prems"(4) unfolding p_def by auto
    have mono: "f (a ! i) \<le> f (a ! j)" if "i \<le> j" "j < length a" for i j
      using sorted_nth_mono [OF "1.prems"(2), of i j] that by simp
    show ?thesis
    proof (cases "lt pivot (a ! p)")
      case lt: True
      have less: "f pivot < f (a ! p)" using lt "1.prems"(1) p(3) by auto
      have hi': "\<forall>i. p \<le> i \<and> i < length a \<longrightarrow> f pivot < f (a ! i)"
        using less mono by (meson less_le_trans)
      have eq: "bisect lt pivot a l r = bisect lt pivot a l p"
        using True lt unfolding p_def by (simp add: bisect.simps [of lt pivot a l r] Let_def)
      from "1.IH"(1) [OF True p_def lt "1.prems"(1,2) p(1) _ "1.prems"(5) hi'] p
      show ?thesis unfolding eq by auto
    next
      case nlt: False
      have le: "f (a ! p) \<le> f pivot" using nlt "1.prems"(1) p(3) by auto
      have lo': "\<forall>i<p + 1. f (a ! i) \<le> f pivot"
        using le mono p(3) by (metis Suc_eq_plus1 less_Suc_eq_le order_trans)
      have eq: "bisect lt pivot a l r = bisect lt pivot a (p + 1) r"
        using True nlt unfolding p_def by (simp add: bisect.simps [of lt pivot a l r] Let_def)
      from "1.IH"(2) [OF True p_def nlt "1.prems"(1,2) _ "1.prems"(4) lo' "1.prems"(6)] p
      show ?thesis unfolding eq by auto
    qed
  qed
qed

lemma binary_insert_mset: "mset (binary_insert lt a pivot) = add_mset pivot (mset a)"
proof -
  have "mset (take k a) + mset (drop k a) = mset a" for k
    by (metis append_take_drop_id mset_append)
  then show ?thesis unfolding binary_insert_def Let_def by simp
qed

lemma binary_insert_sorted:
  fixes f :: "'a \<Rightarrow> 'k::linorder"
  assumes agree: "\<forall>x \<in> set a. lt pivot x = (f pivot < f x)" and srt: "sorted (map f a)"
  shows "sorted (map f (binary_insert lt a pivot))
       \<and> filter (\<lambda>x. f x = c) (binary_insert lt a pivot) = filter (\<lambda>x. f x = c) (a @ [pivot])"
proof -
  define k where "k = bisect lt pivot a 0 (length a)"
  have z: "\<forall>i<0. f (a ! i) \<le> f pivot"
    and v: "\<forall>i. length a \<le> i \<and> i < length a \<longrightarrow> f pivot < f (a ! i)"
    by auto
  from bisect_spec [where f = f and a = a and lt = lt and pivot = pivot and l = 0
      and r = "length a", OF agree srt _ _ z v]
  have lo: "\<forall>i<k. f (a ! i) \<le> f pivot"
    and hi: "\<forall>i. k \<le> i \<and> i < length a \<longrightarrow> f pivot < f (a ! i)"
    and kl: "k \<le> length a"
    unfolding k_def by auto
  have tk: "f x \<le> f pivot" if "x \<in> set (take k a)" for x
  proof -
    from that obtain i where "i < length (take k a)" "x = take k a ! i"
      by (metis in_set_conv_nth)
    with lo show ?thesis by simp
  qed
  have dr: "f pivot < f x" if "x \<in> set (drop k a)" for x
  proof -
    from that obtain i where i: "i < length (drop k a)" "x = drop k a ! i"
      by (metis in_set_conv_nth)
    then have "x = a ! (k + i)" "k + i < length a" using kl by auto
    with hi show ?thesis by simp
  qed
  have s1: "sorted (map f (take k a))" "sorted (map f (drop k a))"
    using srt by (simp_all add: sorted_map sorted_wrt_take sorted_wrt_drop)
  have srt': "sorted (map f (take k a @ pivot # drop k a))"
    using s1 tk dr by (fastforce simp: sorted_append)
  have fd: "filter (\<lambda>x. f x = c) (drop k a) = []" if "c = f pivot"
    unfolding filter_empty_conv using dr that by fastforce
  have sp: "filter (\<lambda>x. f x = c) a
              = filter (\<lambda>x. f x = c) (take k a) @ filter (\<lambda>x. f x = c) (drop k a)"
    by (metis append_take_drop_id filter_append)
  have "filter (\<lambda>x. f x = c) (take k a @ pivot # drop k a)
          = filter (\<lambda>x. f x = c) (a @ [pivot])"
    unfolding filter_append sp using fd by auto
  then show ?thesis using srt' unfolding binary_insert_def Let_def k_def [symmetric] by simp
qed

lemma foldl_binary_insert_mset:
  "mset (foldl (binary_insert lt) a rest) = mset (a @ rest)"
  by (induction rest arbitrary: a) (simp_all add: binary_insert_mset)

lemma foldl_binary_insert_sorted:
  fixes f :: "'a \<Rightarrow> 'k::linorder"
  shows "\<lbrakk>\<forall>x \<in> set (a @ rest). \<forall>y \<in> set (a @ rest). lt x y = (f x < f y); sorted (map f a)\<rbrakk>
   \<Longrightarrow> sorted (map f (foldl (binary_insert lt) a rest))
     \<and> filter (\<lambda>x. f x = c) (foldl (binary_insert lt) a rest) = filter (\<lambda>x. f x = c) (a @ rest)"
proof (induction rest arbitrary: a)
  case Nil
  then show ?case by simp
next
  case (Cons x rest)
  have ag: "\<forall>y \<in> set a. lt x y = (f x < f y)" using Cons.prems(1) by simp
  have bi: "sorted (map f (binary_insert lt a x))
       \<and> filter (\<lambda>x. f x = c) (binary_insert lt a x) = filter (\<lambda>x. f x = c) (a @ [x])"
    using ag Cons.prems(2) by (rule binary_insert_sorted)
  have st: "set (binary_insert lt a x) = insert x (set a)"
    using binary_insert_mset [of lt a x] by (metis mset_eq_setD set_mset_add_mset_insert set_mset_mset)
  have ag': "\<forall>u \<in> set (binary_insert lt a x @ rest).
               \<forall>v \<in> set (binary_insert lt a x @ rest). lt u v = (f u < f v)"
    using Cons.prems(1) unfolding set_append st by simp
  from Cons.IH [OF ag' conjunct1 [OF bi]] bi show ?case by simp
qed

lemma asc_run_sorted:
  fixes f :: "'a \<Rightarrow> 'k::linorder"
  shows "\<forall>y \<in> set (prev # xs). \<forall>z \<in> set (prev # xs). lt y z = (f y < f z)
   \<Longrightarrow> sorted (map f (prev # take (asc_run lt prev xs) xs))"
proof (induction xs arbitrary: prev)
  case Nil
  then show ?case by simp
next
  case (Cons x xs)
  show ?case
  proof (cases "lt x prev")
    case True
    then show ?thesis by simp
  next
    case False
    then have le: "f prev \<le> f x" using Cons.prems by auto
    have "sorted (map f (x # take (asc_run lt x xs) xs))"
      using Cons.prems by (intro Cons.IH) auto
    with le False show ?thesis by (simp del: sorted_wrt.simps add: sorted2)
  qed
qed

lemma desc_run_strict:
  fixes f :: "'a \<Rightarrow> 'k::linorder"
  shows "\<forall>y \<in> set (prev # xs). \<forall>z \<in> set (prev # xs). lt y z = (f y < f z)
   \<Longrightarrow> sorted_wrt (\<lambda>a b. f b < f a) (prev # take (desc_run lt prev xs) xs)"
proof (induction xs arbitrary: prev)
  case Nil
  then show ?case by simp
next
  case (Cons x xs)
  have tr: "transp (\<lambda>a b. f b < f a)" by (rule transpI) auto
  show ?case
  proof (cases "lt x prev")
    case False
    then show ?thesis by simp
  next
    case True
    then have less: "f x < f prev" using Cons.prems by auto
    have "sorted_wrt (\<lambda>a b. f b < f a) (x # take (desc_run lt x xs) xs)"
      using Cons.prems by (intro Cons.IH) auto
    with less True show ?thesis by (simp del: sorted_wrt.simps add: sorted_wrt2 [OF tr])
  qed
qed

lemma filter_rev_strict:
  fixes f :: "'a \<Rightarrow> 'k::linorder"
  shows "sorted_wrt (\<lambda>a b. f b < f a) ys
   \<Longrightarrow> filter (\<lambda>x. f x = c) (rev ys) = filter (\<lambda>x. f x = c) ys"
proof (induction ys)
  case Nil
  then show ?case by simp
next
  case (Cons y ys)
  have "filter (\<lambda>x. f x = c) ys = []" if "f y = c"
    unfolding filter_empty_conv using Cons.prems that by fastforce
  with Cons show ?case by auto
qed

lemma listsort_unfold:
  "L = x0 # x1 # xs \<Longrightarrow>
   listsort lt L =
     (if lt x1 x0
      then foldl (binary_insert lt) (rev (take (2 + desc_run lt x1 xs) L))
             (drop (2 + desc_run lt x1 xs) L)
      else foldl (binary_insert lt) (take (2 + asc_run lt x1 xs) L)
             (drop (2 + asc_run lt x1 xs) L))"
  by (simp only: listsort.simps Let_def)

lemma listsort_mset: "mset (listsort lt xs) = mset xs"
proof (cases xs)
  case Nil
  then show ?thesis by simp
next
  case (Cons x0 ys)
  show ?thesis
  proof (cases ys)
    case Nil
    with Cons show ?thesis by simp
  next
    case (Cons x1 xs')
    have a: "mset (rev (take n xs)) + mset (drop n xs) = mset xs" for n
      by (metis append_take_drop_id mset_append mset_rev)
    have b: "mset (take n xs) + mset (drop n xs) = mset xs" for n
      by (metis append_take_drop_id mset_append)
    have xs: "xs = x0 # x1 # xs'" using Cons \<open>xs = x0 # ys\<close> by simp
    show ?thesis
      unfolding listsort_unfold [OF xs]
      by (simp add: foldl_binary_insert_mset b)
  qed
qed

lemma listsort_sorted:
  fixes f :: "'a \<Rightarrow> 'k::linorder"
  assumes agree: "\<forall>x \<in> set xs. \<forall>y \<in> set xs. lt x y = (f x < f y)"
  shows "sorted (map f (listsort lt xs))
       \<and> filter (\<lambda>x. f x = c) (listsort lt xs) = filter (\<lambda>x. f x = c) xs"
proof (cases xs)
  case Nil
  then show ?thesis by simp
next
  case (Cons x0 ys)
  show ?thesis
  proof (cases ys)
    case Nil
    with Cons show ?thesis by simp
  next
    case (Cons x1 xs')
    have xs: "xs = x0 # x1 # xs'" using Cons \<open>xs = x0 # ys\<close> by simp
    have ag1: "\<forall>y \<in> set (x1 # xs'). \<forall>z \<in> set (x1 # xs'). lt y z = (f y < f z)"
      using agree unfolding xs by simp
    have x01: "lt x1 x0 = (f x1 < f x0)" using agree unfolding xs by simp
    show ?thesis
    proof (cases "lt x1 x0")
      case False
      define n where "n = 2 + asc_run lt x1 xs'"
      have tk: "take n xs = x0 # x1 # take (asc_run lt x1 xs') xs'"
        unfolding n_def xs by simp
      have "sorted (map f (x1 # take (asc_run lt x1 xs') xs'))"
        using ag1 by (rule asc_run_sorted)
      then have s0: "sorted (map f (take n xs))"
        unfolding tk using False x01 by (simp del: sorted_wrt.simps add: sorted2)
      have ag: "\<forall>x \<in> set (take n xs @ drop n xs). \<forall>y \<in> set (take n xs @ drop n xs).
                  lt x y = (f x < f y)"
        using agree by simp
      from foldl_binary_insert_sorted [where f = f and c = c, OF ag s0] False
      show ?thesis unfolding listsort_unfold [OF xs] n_def [symmetric] by simp
    next
      case True
      define n where "n = 2 + desc_run lt x1 xs'"
      have tr: "transp (\<lambda>a b. f b < f a)" by (rule transpI) auto
      have tk: "take n xs = x0 # x1 # take (desc_run lt x1 xs') xs'"
        unfolding n_def xs by simp
      have "sorted_wrt (\<lambda>a b. f b < f a) (x1 # take (desc_run lt x1 xs') xs')"
        using ag1 by (rule desc_run_strict)
      then have d0: "sorted_wrt (\<lambda>a b. f b < f a) (take n xs)"
        unfolding tk using True x01 by (simp del: sorted_wrt.simps add: sorted_wrt2 [OF tr])
      then have "sorted_wrt (\<lambda>a b. f a < f b) (rev (take n xs))"
        by (simp add: sorted_wrt_rev)
      then have "sorted_wrt (\<lambda>a b. f a \<le> f b) (rev (take n xs))"
        by (rule sorted_wrt_mono_rel [rotated]) auto
      then have s0: "sorted (map f (rev (take n xs)))"
        by (simp add: sorted_map)
      have ag: "\<forall>x \<in> set (rev (take n xs) @ drop n xs).
                  \<forall>y \<in> set (rev (take n xs) @ drop n xs). lt x y = (f x < f y)"
        using agree by (metis append_take_drop_id set_append set_rev)
      have fr: "filter (\<lambda>x. f x = c) (rev (take n xs)) = filter (\<lambda>x. f x = c) (take n xs)"
        using d0 by (rule filter_rev_strict)
      have "filter (\<lambda>x. f x = c) (rev (take n xs) @ drop n xs) = filter (\<lambda>x. f x = c) xs"
        unfolding filter_append fr by (metis append_take_drop_id filter_append)
      with foldl_binary_insert_sorted [where f = f and c = c, OF ag s0] True
      show ?thesis unfolding listsort_unfold [OF xs] n_def [symmetric] by simp
    qed
  qed
qed

lemma listsort_reverse_sorted:
  fixes f :: "'a \<Rightarrow> 'k::linorder"
  assumes agree: "\<forall>x \<in> set xs. \<forall>y \<in> set xs. lt x y = (f x < f y)"
  shows "sorted_wrt (\<lambda>a b. f b \<le> f a) (listsort_reverse lt xs)
       \<and> filter (\<lambda>x. f x = c) (listsort_reverse lt xs) = filter (\<lambda>x. f x = c) xs"
proof -
  have ag: "\<forall>x \<in> set (rev xs). \<forall>y \<in> set (rev xs). lt x y = (f x < f y)"
    using agree by simp
  note ls = listsort_sorted [where f = f and c = c, OF ag]
  from ls have "sorted_wrt (\<lambda>a b. f a \<le> f b) (listsort lt (rev xs))"
    by (simp add: sorted_map)
  then have a: "sorted_wrt (\<lambda>a b. f b \<le> f a) (listsort_reverse lt xs)"
    unfolding listsort_reverse_def by (simp add: sorted_wrt_rev)
  have "filter (\<lambda>x. f x = c) (listsort_reverse lt xs)
          = rev (filter (\<lambda>x. f x = c) (listsort lt (rev xs)))"
    unfolding listsort_reverse_def by (simp add: rev_filter)
  also have "\<dots> = rev (filter (\<lambda>x. f x = c) (rev xs))" using ls by simp
  also have "\<dots> = filter (\<lambda>x. f x = c) xs" by (simp add: rev_filter)
  finally show ?thesis using a by simp
qed

lemma listsort_reverse_mset: "mset (listsort_reverse lt xs) = mset xs"
  unfolding listsort_reverse_def by (simp add: listsort_mset)

lemma scan_cycle_sorted_without_nan:
  assumes nonan: "\<forall>d \<in> set (collect w m (active_symbols w)). score d \<noteq> NaN"
  shows "non_increasing (scan_cycle w m)
       \<and> (\<forall>k. filter (\<lambda>d. score d = k) (scan_cycle w m)
                = filter (\<lambda>d. score d = k) (collect w m (active_symbols w)))
       \<and> mset (scan_cycle w m) = mset (collect w m (active_symbols w))"
proof -
  let ?ds = "collect w m (active_symbols w)"
  let ?f = "\<lambda>d. fl_rank (score d)"
  have cyc: "scan_cycle w m = listsort_reverse score_lt ?ds"
    unfolding scan_cycle_def Let_def by (rule refl)
  have agree: "\<forall>x \<in> set ?ds. \<forall>y \<in> set ?ds. score_lt x y = (?f x < ?f y)"
    using nonan unfolding score_lt_def by (simp add: fl_lt_rank)
  have ms: "mset (scan_cycle w m) = mset ?ds"
    unfolding cyc by (rule listsort_reverse_mset)
  then have st: "set (scan_cycle w m) = set ?ds" by (rule mset_eq_setD)
  have srt: "sorted_wrt (\<lambda>a b. ?f b \<le> ?f a) (scan_cycle w m)"
    using listsort_reverse_sorted [where f = ?f, OF agree] unfolding cyc by blast
  have ni: "non_increasing (scan_cycle w m)"
    unfolding non_increasing_def
    using srt
  proof (rule sorted_wrt_mono_rel [rotated])
    fix a b
    assume "a \<in> set (scan_cycle w m)" "b \<in> set (scan_cycle w m)" "?f b \<le> ?f a"
    then show "fl_le (score b) (score a)"
      using nonan unfolding st by (simp add: fl_le_rank)
  qed
  have fl: "filter (\<lambda>d. score d = k) (scan_cycle w m) = filter (\<lambda>d. score d = k) ?ds" for k
  proof -
    have "filter (\<lambda>d. ?f d = fl_rank k) (scan_cycle w m) = filter (\<lambda>d. ?f d = fl_rank k) ?ds"
      using listsort_reverse_sorted [where f = ?f and c = "fl_rank k", OF agree]
      unfolding cyc by blast
    then show ?thesis unfolding fl_rank_eq .
  qed
  from ni fl ms show ?thesis by blast
qed

section \<open>The score\<close>

text \<open>
  Claim C1.  When a symbol evaluation returns an opportunity and the ATR, the close and the
  point size are positive and the ask is not below the bid, each of the five sub-scores
  (trend, momentum, volatility, structure, liquidity) is a finite number, the value of its
  expression on the reals, and lies between 0 and 1; the emitted score is the weighted sum
  \<open>100 * (0.30 trend + 0.20 momentum + 0.15 volatility + 0.25 structure + 0.10 liquidity)\<close>
  rounded to one decimal, the weights add up to 1, and the score lies between 0 and 100.
\<close>

theorem score_is_weighted_sum:
  assumes "analyze_symbol w m s = Some d"
    and "last_row m s = Some c" "symbol_info_tick m s = Some t" "symbol_info_of m s = Some si"
    and "0 < atr c" "0 < close c" "0 < point si" "bid t \<le> ask t"
  shows "(0 \<le> score_trend c \<and> score_trend c \<le> 1)
       \<and> (0 \<le> score_mom (bias d) c \<and> score_mom (bias d) c \<le> 1)
       \<and> (0 \<le> score_vol c \<and> score_vol c \<le> 1)
       \<and> (0 \<le> score_struct (bias d) c t \<and> score_struct (bias d) c t \<le> 1)
       \<and> (0 \<le> score_liq c t si \<and> score_liq c t si \<le> 1)
       \<and> np_score_trend c = Fin (score_trend c) \<and> np_score_vol c = Fin (score_vol c)
       \<and> np_score_struct (bias d) c t = Fin (score_struct (bias d) c t)
       \<and> np_score_liq c t si = Fin (score_liq c t si)
       \<and> score d = Fin (round1 (100 * (0.30 * score_trend c + 0.20 * score_mom (bias d) c
                            + 0.15 * score_vol c + 0.25 * score_struct (bias d) c t
                            + 0.10 * score_liq c t si)))
       \<and> 0.30 + 0.20 + 0.15 + 0.25 + 0.10 = (1::real)
       \<and> (\<exists>v. score d = Fin v \<and> 0 \<le> v \<and> v \<le> 100)"
proof -
  let ?b = "bias_of c"
  from analyze_symbol_SomeD [OF assms(1)] assms(2-4)
  have b: "bias d = ?b"
    and sc: "score d = np_final_score ?b c t si"
    by auto
  have tr: "0 \<le> score_trend c \<and> score_trend c \<le> 1"
    using assms(5) by (rule score_trend_bounds)
  have mo: "0 \<le> score_mom ?b c \<and> score_mom ?b c \<le> 1"
    by (rule score_mom_bounds)
  have vo: "0 \<le> score_vol c \<and> score_vol c \<le> 1"
    by (rule score_vol_bounds)
  have st: "0 \<le> score_struct ?b c t \<and> score_struct ?b c t \<le> 1"
    using assms(5) by (rule score_struct_bounds)
  have li: "0 \<le> score_liq c t si \<and> score_liq c t si \<le> 1"
    using assms(5,7,8) by (rule score_liq_bounds)
  let ?x = "100 * (0.30 * score_trend c + 0.20 * score_mom ?b c + 0.15 * score_vol c
                   + 0.25 * score_struct ?b c t + 0.10 * score_liq c t si)"
  have fs: "score d = Fin (round1 ?x)"
    using sc np_final_score_Fin [of c si ?b t] assms(5,6,7) unfolding final_score_def by simp
  have x0: "0 \<le> ?x" using tr mo vo st li by simp
  have x1: "?x \<le> 100" using tr mo vo st li by simp
  have rb: "0 \<le> round1 ?x \<and> round1 ?x \<le> 100"
    using x0 x1 by (rule round1_bounds)
  have np: "np_score_trend c = Fin (score_trend c)" "np_score_vol c = Fin (score_vol c)"
    "np_score_struct ?b c t = Fin (score_struct ?b c t)"
    "np_score_liq c t si = Fin (score_liq c t si)"
    using assms(5,6,7)
    by (simp_all add: np_score_trend_Fin np_score_vol_Fin np_score_struct_Fin np_score_liq_Fin)
  show ?thesis using tr mo vo st li fs rb np unfolding b by simp
qed

theorem score_is_weighted_sum_witness:
  "score (the (analyze_symbol ex_worker ex_terminal ''EURUSD'')) = Fin 55.9
   \<and> score_trend ex_row = 0.84 \<and> score_mom BULLISH ex_row = 0.8
   \<and> score_liq ex_row ex_tick ex_info = 0"
proof -
  let ?d = "\<lparr>symbol = ''EURUSD'', score = Fin 55.9, bias = BULLISH, price = 1.1052,
             sl = 1.1037, tp = 1.1082, lots = 3.33, adx_out = 35\<rparr>"
  have a: "analyze_symbol ex_worker ex_terminal ''EURUSD'' = Some ?d"
    unfolding model_defs ex_defs Let_def by (simp add: round1_def py_round_def Let_def)
  have h: "last_row ex_terminal ''EURUSD'' = Some ex_row"
    "symbol_info_tick ex_terminal ''EURUSD'' = Some ex_tick"
    "symbol_info_of ex_terminal ''EURUSD'' = Some ex_info"
    unfolding ex_terminal_def by simp_all
  have p: "0 < atr ex_row" "0 < close ex_row" "0 < point ex_info" "bid ex_tick \<le> ask ex_tick"
    unfolding ex_row_def ex_info_def ex_tick_def by simp_all
  have e: "score_trend ex_row = 0.84" "score_mom BULLISH ex_row = 0.8"
    "score_liq ex_row ex_tick ex_info = 0"
    unfolding model_defs ex_defs by simp_all
  from score_is_weighted_sum [OF a h p] a e show ?thesis by simp
qed

section \<open>Skipped evaluations\<close>

text \<open>
  The sentence C2 of the specification says that a symbol whose bias is \<open>NEUTRAL\<close> is
  skipped like a symbol with a missing input.  The source has no such test: on
  \<open>AUDUSD\<close>, whose close equals its EMA, \<open>analyze_symbol\<close> returns a dictionary.
\<close>

theorem neutral_not_skipped_counterexample:
  "last_row ex_terminal ''AUDUSD'' = Some (ex_row\<lparr>close := 1.1000\<rparr>)
   \<and> close (ex_row\<lparr>close := 1.1000\<rparr>) = ema (ex_row\<lparr>close := 1.1000\<rparr>)
   \<and> bias_of (ex_row\<lparr>close := 1.1000\<rparr>) = NEUTRAL
   \<and> analyze_symbol ex_worker ex_terminal ''AUDUSD'' =
       Some \<lparr>symbol = ''AUDUSD'', score = Fin 10.3, bias = NEUTRAL, price = 1.1048,
             sl = 1.1063, tp = 1.1018, lots = 3.33, adx_out = 35\<rparr>
   \<and> analyze_symbol ex_worker ex_terminal ''AUDUSD'' \<noteq> None"
  unfolding model_defs ex_defs Let_def by (simp add: round1_def py_round_def Let_def)

text \<open>
  Claim C2, as the code has it.  The evaluation of a symbol is skipped (\<open>analyze_symbol\<close>
  returns \<open>None\<close>) when the bars are missing or fewer than 250, or the indicator row, the
  quote, the symbol information or the account information is missing.  A \<open>NEUTRAL\<close> bias
  does not skip it: with all inputs present, a point size and a volume step that are not
  zero, and the close equal to the EMA, an opportunity with bias \<open>NEUTRAL\<close> is returned.
\<close>

theorem skipped_on_missing_input_not_on_neutral:
  "(copy_rates_from_pos m s = None \<or> (\<exists>k. copy_rates_from_pos m s = Some k \<and> k < bars)
      \<or> last_row m s = None \<or> symbol_info_tick m s = None \<or> symbol_info_of m s = None
      \<or> account_info_of m = None
    \<longrightarrow> analyze_symbol w m s = None)
 \<and> (copy_rates_from_pos m s = Some n \<and> bars \<le> n \<and> last_row m s = Some c
      \<and> symbol_info_tick m s = Some t \<and> symbol_info_of m s = Some si
      \<and> account_info_of m = Some acct \<and> point si \<noteq> 0 \<and> volume_step si \<noteq> 0
      \<and> close c = ema c
    \<longrightarrow> (\<exists>d. analyze_symbol w m s = Some d \<and> bias d = NEUTRAL))"
proof -
  have skip: "analyze_symbol w m s = None"
    if "copy_rates_from_pos m s = None \<or> (\<exists>k. copy_rates_from_pos m s = Some k \<and> k < bars)
        \<or> last_row m s = None \<or> symbol_info_tick m s = None \<or> symbol_info_of m s = None
        \<or> account_info_of m = None"
    using that unfolding analyze_symbol_def analyze_body_def calculate_lot_def Let_def
    by (auto split: option.splits sum.splits)
  have emit: "\<exists>d. analyze_symbol w m s = Some d \<and> bias d = NEUTRAL"
    if h: "copy_rates_from_pos m s = Some n" "bars \<le> n" "last_row m s = Some c"
      "symbol_info_tick m s = Some t" "symbol_info_of m s = Some si"
      "account_info_of m = Some acct" "point si \<noteq> 0" "volume_step si \<noteq> 0" "close c = ema c"
  proof -
    obtain lot_size where
      "calculate_lot w m s (sl_points_of (bias_of c) c t si) = Inr lot_size"
      using calculate_lot_total [OF h(6,5,8)] by blast
    from analyze_symbol_SomeI [OF h(1-5,7) this] h(9)
    show ?thesis unfolding bias_of_def by simp
  qed
  from skip emit show ?thesis by blast
qed

theorem skipped_on_missing_input_not_on_neutral_witness:
  "analyze_symbol ex_worker ex_terminal ''BTCUSD'' = None
   \<and> (\<exists>d. analyze_symbol ex_worker ex_terminal ''AUDUSD'' = Some d \<and> bias d = NEUTRAL)"
proof -
  let ?c = "ex_row\<lparr>close := 1.1000\<rparr>"
  have a: "copy_rates_from_pos ex_terminal ''BTCUSD'' = None"
    unfolding ex_terminal_def by simp
  have h: "copy_rates_from_pos ex_terminal ''AUDUSD'' = Some 250" "bars \<le> 250"
    "last_row ex_terminal ''AUDUSD'' = Some ?c"
    "symbol_info_tick ex_terminal ''AUDUSD'' = Some ex_tick"
    "symbol_info_of ex_terminal ''AUDUSD'' = Some ex_info"
    "account_info_of ex_terminal = Some ex_account"
    "point ex_info \<noteq> 0" "volume_step ex_info \<noteq> 0" "close ?c = ema ?c"
    unfolding ex_terminal_def bars_def ex_info_def ex_row_def by simp_all
  from skipped_on_missing_input_not_on_neutral
         [of ex_terminal "''BTCUSD''" ex_worker]
       skipped_on_missing_input_not_on_neutral
         [of ex_terminal "''AUDUSD''" ex_worker 250 ?c ex_tick ex_info ex_account]
       a h
  show ?thesis by simp
qed

section \<open>The trade setup\<close>

text \<open>
  Claim C3.  A returned opportunity with \<open>BULLISH\<close> bias has entry = ask,
  stop = entry - 1.5 ATR and target = entry + (entry - stop) rr_ratio, so that
  target - entry = rr_ratio (entry - stop); one with \<open>BEARISH\<close> bias has entry = bid,
  stop = entry + 1.5 ATR and target = entry - (stop - entry) rr_ratio.
\<close>

theorem setup_by_bias:
  assumes "analyze_symbol w m s = Some d"
    and "last_row m s = Some c" "symbol_info_tick m s = Some t"
  shows "(bias d = BULLISH \<longrightarrow>
            price d = ask t \<and> sl d = price d - 1.5 * atr c
          \<and> tp d = price d + (price d - sl d) * rr_ratio w
          \<and> tp d - price d = rr_ratio w * (price d - sl d))
       \<and> (bias d = BEARISH \<longrightarrow>
            price d = bid t \<and> sl d = price d + 1.5 * atr c
          \<and> tp d = price d - (sl d - price d) * rr_ratio w)"
proof -
  from analyze_symbol_SomeD [OF assms(1)] assms(2,3)
  have d: "bias d = bias_of c" "price d = entry_of (bias_of c) t"
    "sl d = sl_of (bias_of c) c t" "tp d = tp_of (rr_ratio w) (bias_of c) c t"
    by auto
  show ?thesis
    unfolding d tp_of_def sl_of_def entry_of_def ATR_MULTIPLIER_def by simp
qed

theorem setup_by_bias_witness:
  "price (the (analyze_symbol ex_worker ex_terminal ''EURUSD'')) = 1.1052
   \<and> sl (the (analyze_symbol ex_worker ex_terminal ''EURUSD'')) = 1.1037
   \<and> tp (the (analyze_symbol ex_worker ex_terminal ''EURUSD'')) = 1.1082
   \<and> price (the (analyze_symbol ex_worker ex_terminal ''USDCHF'')) = 0.8948
   \<and> sl (the (analyze_symbol ex_worker ex_terminal ''USDCHF'')) = 0.8963
   \<and> tp (the (analyze_symbol ex_worker ex_terminal ''USDCHF'')) = 0.8918"
proof -
  let ?d = "\<lparr>symbol = ''EURUSD'', score = Fin 55.9, bias = BULLISH, price = 1.1052,
             sl = 1.1037, tp = 1.1082, lots = 3.33, adx_out = 35\<rparr>"
  let ?e = "\<lparr>symbol = ''USDCHF'', score = Fin 57.5, bias = BEARISH, price = 0.8948,
             sl = 0.8963, tp = 0.8918, lots = 3.33, adx_out = 35\<rparr>"
  have a: "analyze_symbol ex_worker ex_terminal ''EURUSD'' = Some ?d"
    unfolding model_defs ex_defs Let_def by (simp add: round1_def py_round_def Let_def)
  have b: "analyze_symbol ex_worker ex_terminal ''USDCHF'' = Some ?e"
    unfolding model_defs ex_defs Let_def by (simp add: round1_def py_round_def Let_def)
  have h: "last_row ex_terminal ''EURUSD'' = Some ex_row"
    "symbol_info_tick ex_terminal ''EURUSD'' = Some ex_tick"
    unfolding ex_terminal_def by simp_all
  have k: "last_row ex_terminal ''USDCHF'' = Some ex_row_chf"
    "symbol_info_tick ex_terminal ''USDCHF'' = Some ex_tick_chf"
    unfolding ex_terminal_def by simp_all
  have r: "rr_ratio ex_worker = 2" "ask ex_tick = 1.1052" "atr ex_row = 0.001"
    "bid ex_tick_chf = 0.8948" "atr ex_row_chf = 0.001"
    unfolding ex_defs by simp_all
  from setup_by_bias [OF a h] setup_by_bias [OF b k] show ?thesis unfolding a b r by simp
qed

section \<open>The lot size\<close>

text \<open>
  Claim C4.  With a positive balance, risk percent, tick value, stop distance, volume step,
  minimum and maximum volume, the minimum and the maximum being multiples of the step and
  the minimum not above the maximum, \<open>calculate_lot\<close> returns a non-negative multiple of the
  step between the minimum and the maximum: the raw lots are quantized to a nearest
  multiple of the step, a quantized value above the maximum is capped at the maximum and
  one below the minimum is raised to the minimum.
\<close>

theorem lot_in_range:
  assumes "account_info_of m = Some acct" "symbol_info_of m s = Some si"
    and "0 < balance acct" "0 < risk_per_trade w" "0 < trade_tick_value si" "0 < sl_points"
    and "0 < volume_step si" "0 < volume_min si" "0 < volume_max si"
    and "volume_min si = of_nat a * volume_step si" "volume_max si = of_nat b * volume_step si"
    and "volume_min si \<le> volume_max si"
    and "raw_lot = balance acct * (risk_per_trade w / 100) / (sl_points * trade_tick_value si)"
    and "q = quantize raw_lot (volume_step si)"
  shows "\<exists>lot. calculate_lot w m s sl_points = Inr lot
           \<and> (\<exists>k::nat. lot = of_nat k * volume_step si)
           \<and> 0 \<le> lot \<and> volume_min si \<le> lot \<and> lot \<le> volume_max si
           \<and> (\<exists>k::nat. q = of_nat k * volume_step si)
           \<and> (\<forall>j::int. \<bar>q - raw_lot\<bar> \<le> \<bar>of_int j * volume_step si - raw_lot\<bar>)
           \<and> lot = (if volume_max si < q then volume_max si
                    else if q < volume_min si then volume_min si else q)"
proof -
  have raw: "0 \<le> raw_lot" using assms(3-6,13) by simp
  have cl: "calculate_lot w m s sl_points = Inr (lot_of raw_lot si)"
    using assms(1,2,5,6,7,13) unfolding calculate_lot_def raw_lot_of_def Let_def by simp
  obtain k :: nat where k: "q = of_nat k * volume_step si"
    using quantize_multiple [OF assms(7) raw] assms(14) by blast
  have near: "\<forall>j::int. \<bar>q - raw_lot\<bar> \<le> \<bar>of_int j * volume_step si - raw_lot\<bar>"
    using quantize_nearest [OF assms(7)] assms(14) by simp
  have lot: "lot_of raw_lot si = (if volume_max si < q then volume_max si
                                  else if q < volume_min si then volume_min si else q)"
    unfolding lot_of_def Let_def assms(14) [symmetric] by (simp add: max_def)
  have mult: "\<exists>k::nat. lot_of raw_lot si = of_nat k * volume_step si"
    unfolding lot using k assms(10,11) by auto
  have rng: "volume_min si \<le> lot_of raw_lot si \<and> lot_of raw_lot si \<le> volume_max si"
    unfolding lot using assms(12) by simp
  have nn: "0 \<le> lot_of raw_lot si" using rng assms(8) by simp
  show ?thesis using cl mult rng nn k near lot by blast
qed

theorem lot_in_range_witness:
  "calculate_lot ex_worker ex_terminal ''EURUSD'' 15 = Inr 3.33
   \<and> calculate_lot ex_worker ex_terminal ''EURUSD'' 0.0001 = Inr 100
   \<and> calculate_lot ex_worker ex_terminal ''EURUSD'' 20000 = Inr 0.01"
proof -
  have h: "account_info_of ex_terminal = Some ex_account"
    "symbol_info_of ex_terminal ''EURUSD'' = Some ex_info"
    unfolding ex_terminal_def by simp_all
  have p: "0 < balance ex_account" "0 < risk_per_trade ex_worker"
    "0 < trade_tick_value ex_info" "(0::real) < 15"
    "0 < volume_step ex_info" "0 < volume_min ex_info" "0 < volume_max ex_info"
    "volume_min ex_info = of_nat 1 * volume_step ex_info"
    "volume_max ex_info = of_nat 10000 * volume_step ex_info"
    "volume_min ex_info \<le> volume_max ex_info"
    unfolding ex_defs by simp_all
  have q: "quantize (balance ex_account * (risk_per_trade ex_worker / 100)
                      / (15 * trade_tick_value ex_info)) (volume_step ex_info) = 3.33"
    unfolding quantize_def py_round_def ex_defs Let_def by simp
  have c: "calculate_lot ex_worker ex_terminal ''EURUSD'' 0.0001 = Inr 100"
    "calculate_lot ex_worker ex_terminal ''EURUSD'' 20000 = Inr 0.01"
    unfolding model_defs ex_defs Let_def by (simp_all add: round1_def py_round_def Let_def)
  from lot_in_range [OF h p refl refl] q c show ?thesis
    unfolding ex_info_def by simp
qed

section \<open>The bias\<close>

text \<open>
  Claim C5.  The bias is \<open>BULLISH\<close> exactly when the close is above the EMA, \<open>BEARISH\<close>
  exactly when it is below, and \<open>NEUTRAL\<close> exactly when the two are equal; this is the
  bias that a returned opportunity carries.
\<close>

theorem bias_iff:
  "(bias_of c = BULLISH \<longleftrightarrow> close c > ema c)
 \<and> (bias_of c = BEARISH \<longleftrightarrow> close c < ema c)
 \<and> (bias_of c = NEUTRAL \<longleftrightarrow> close c = ema c)
 \<and> (analyze_symbol w m s = Some d \<and> last_row m s = Some c \<longrightarrow> bias d = bias_of c)"
proof -
  have "bias d = bias_of c" if "analyze_symbol w m s = Some d" "last_row m s = Some c"
    using analyze_symbol_SomeD [OF that(1)] that(2) by auto
  then show ?thesis unfolding bias_of_def by auto
qed

theorem bias_iff_witness:
  "bias_of ex_row = BULLISH \<and> close ex_row > ema ex_row
   \<and> bias (the (analyze_symbol ex_worker ex_terminal ''AUDUSD'')) = NEUTRAL"
proof -
  let ?c = "ex_row\<lparr>close := 1.1000\<rparr>"
  let ?d = "\<lparr>symbol = ''AUDUSD'', score = Fin 10.3, bias = NEUTRAL, price = 1.1048,
             sl = 1.1063, tp = 1.1018, lots = 3.33, adx_out = 35\<rparr>"
  have a: "analyze_symbol ex_worker ex_terminal ''AUDUSD'' = Some ?d"
    unfolding model_defs ex_defs Let_def by (simp add: round1_def py_round_def Let_def)
  have h: "last_row ex_terminal ''AUDUSD'' = Some ?c"
    unfolding ex_terminal_def by simp
  have e: "close ?c = ema ?c" "close ex_row > ema ex_row"
    unfolding ex_row_def by simp_all
  from bias_iff [of ?c ex_worker ex_terminal "''AUDUSD''" ?d] bias_iff [of ex_row] a h e
  show ?thesis by simp
qed

section \<open>The ranking\<close>

text \<open>
  Claim C6 says that the list emitted by every cycle is sorted by score in non-increasing
  order, opportunities of equal score keeping the order in which they were found.  The
  source sorts the list, but it does not keep a NaN score out of it: \<open>GER40\<close>, with a zero ATR
  and a close equal to the EMA, gets the score \<open>0/0\<close>, every comparison with it is false,
  and the cycle over \<open>EURUSD\<close>, \<open>GER40\<close>, \<open>USDJPY\<close> emits the scores 55.9, NaN, 88.7 in the
  order found, the lower score before the higher one.  The cycle of \<open>ex_worker\<close>, where no
  score is NaN, is emitted in descending order with the two opportunities of score 55.9
  in the order found.
\<close>

theorem scan_cycle_unsorted_with_nan_score:
  "scan_cycle ex_worker_flat ex_terminal =
     [\<lparr>symbol = ''EURUSD'', score = Fin 55.9, bias = BULLISH, price = 1.1052,
       sl = 1.1037, tp = 1.1082, lots = 3.33, adx_out = 35\<rparr>,
      \<lparr>symbol = ''GER40'', score = NaN, bias = NEUTRAL, price = 1.1048,
       sl = 1.1048, tp = 1.1048, lots = 0, adx_out = 35\<rparr>,
      \<lparr>symbol = ''USDJPY'', score = Fin 88.7, bias = BULLISH, price = 150.52,
       sl = 150.22, tp = 151.12, lots = 0.26, adx_out = 45\<rparr>]
   \<and> \<not> non_increasing (scan_cycle ex_worker_flat ex_terminal)
   \<and> fl_lt (score (scan_cycle ex_worker_flat ex_terminal ! 0))
            (score (scan_cycle ex_worker_flat ex_terminal ! 2))
   \<and> scan_cycle ex_worker ex_terminal =
     [\<lparr>symbol = ''USDJPY'', score = Fin 88.7, bias = BULLISH, price = 150.52,
       sl = 150.22, tp = 151.12, lots = 0.26, adx_out = 45\<rparr>,
      \<lparr>symbol = ''EURUSD'', score = Fin 55.9, bias = BULLISH, price = 1.1052,
       sl = 1.1037, tp = 1.1082, lots = 3.33, adx_out = 35\<rparr>,
      \<lparr>symbol = ''GBPUSD'', score = Fin 55.9, bias = BULLISH, price = 1.1052,
       sl = 1.1037, tp = 1.1082, lots = 3.33, adx_out = 35\<rparr>]
   \<and> non_increasing (scan_cycle ex_worker ex_terminal)"
proof -
  have a1: "analyze_symbol w ex_terminal ''EURUSD'' =
      Some \<lparr>symbol = ''EURUSD'', score = Fin 55.9, bias = BULLISH, price = 1.1052,
            sl = 1.1037, tp = 1.1082, lots = 3.33, adx_out = 35\<rparr>"
    if "risk_per_trade w = 0.5" "rr_ratio w = 2" for w
    unfolding model_defs ex_defs Let_def that by (simp add: round1_def py_round_def Let_def)
  have a2: "analyze_symbol ex_worker ex_terminal ''USOIL'' = None"
    unfolding model_defs ex_defs Let_def by (simp add: round1_def py_round_def Let_def)
  have a3: "analyze_symbol w ex_terminal ''USDJPY'' =
      Some \<lparr>symbol = ''USDJPY'', score = Fin 88.7, bias = BULLISH, price = 150.52,
            sl = 150.22, tp = 151.12, lots = 0.26, adx_out = 45\<rparr>"
    if "risk_per_trade w = 0.5" "rr_ratio w = 2" for w
    unfolding model_defs ex_defs Let_def that by (simp add: round1_def py_round_def Let_def)
  have a4: "analyze_symbol ex_worker ex_terminal ''XAUUSD'' = None"
    unfolding model_defs ex_defs Let_def by (simp add: round1_def py_round_def Let_def)
  have a5: "analyze_symbol ex_worker ex_terminal ''GBPUSD'' =
      Some \<lparr>symbol = ''GBPUSD'', score = Fin 55.9, bias = BULLISH, price = 1.1052,
            sl = 1.1037, tp = 1.1082, lots = 3.33, adx_out = 35\<rparr>"
    unfolding model_defs ex_defs Let_def by (simp add: round1_def py_round_def Let_def)
  have a6: "analyze_symbol ex_worker_flat ex_terminal ''GER40'' =
      Some \<lparr>symbol = ''GER40'', score = NaN, bias = NEUTRAL, price = 1.1048,
            sl = 1.1048, tp = 1.1048, lots = 0, adx_out = 35\<rparr>"
    unfolding model_defs ex_defs Let_def by (simp add: round1_def py_round_def Let_def)
  have w: "risk_per_trade ex_worker = 0.5" "rr_ratio ex_worker = 2"
    "risk_per_trade ex_worker_flat = 0.5" "rr_ratio ex_worker_flat = 2"
    "active_symbols ex_worker = [''EURUSD'', ''USOIL'', ''USDJPY'', ''XAUUSD'', ''GBPUSD'']"
    "active_symbols ex_worker_flat = [''EURUSD'', ''GER40'', ''USDJPY'']"
    unfolding ex_defs by simp_all
  have c: "collect ex_worker ex_terminal (active_symbols ex_worker) =
     [\<lparr>symbol = ''EURUSD'', score = Fin 55.9, bias = BULLISH, price = 1.1052,
       sl = 1.1037, tp = 1.1082, lots = 3.33, adx_out = 35\<rparr>,
      \<lparr>symbol = ''USDJPY'', score = Fin 88.7, bias = BULLISH, price = 150.52,
       sl = 150.22, tp = 151.12, lots = 0.26, adx_out = 45\<rparr>,
      \<lparr>symbol = ''GBPUSD'', score = Fin 55.9, bias = BULLISH, price = 1.1052,
       sl = 1.1037, tp = 1.1082, lots = 3.33, adx_out = 35\<rparr>]"
    unfolding w(5) by (simp add: a1 [OF w(1,2)] a2 a3 [OF w(1,2)] a4 a5)
  have cf: "collect ex_worker_flat ex_terminal (active_symbols ex_worker_flat) =
     [\<lparr>symbol = ''EURUSD'', score = Fin 55.9, bias = BULLISH, price = 1.1052,
       sl = 1.1037, tp = 1.1082, lots = 3.33, adx_out = 35\<rparr>,
      \<lparr>symbol = ''GER40'', score = NaN, bias = NEUTRAL, price = 1.1048,
       sl = 1.1048, tp = 1.1048, lots = 0, adx_out = 35\<rparr>,
      \<lparr>symbol = ''USDJPY'', score = Fin 88.7, bias = BULLISH, price = 150.52,
       sl = 150.22, tp = 151.12, lots = 0.26, adx_out = 45\<rparr>]"
    unfolding w(6) by (simp add: a1 [OF w(3,4)] a6 a3 [OF w(3,4)])
  have r: "scan_cycle ex_worker ex_terminal =
     [\<lparr>symbol = ''USDJPY'', score = Fin 88.7, bias = BULLISH, price = 150.52,
       sl = 150.22, tp = 151.12, lots = 0.26, adx_out = 45\<rparr>,
      \<lparr>symbol = ''EURUSD'', score = Fin 55.9, bias = BULLISH, price = 1.1052,
       sl = 1.1037, tp = 1.1082, lots = 3.33, adx_out = 35\<rparr>,
      \<lparr>symbol = ''GBPUSD'', score = Fin 55.9, bias = BULLISH, price = 1.1052,
       sl = 1.1037, tp = 1.1082, lots = 3.33, adx_out = 35\<rparr>]"
    unfolding scan_cycle_def c Let_def listsort_reverse_def score_lt_def
    by (simp add: binary_insert_def bisect.simps)
  have rf: "scan_cycle ex_worker_flat ex_terminal =
     [\<lparr>symbol = ''EURUSD'', score = Fin 55.9, bias = BULLISH, price = 1.1052,
       sl = 1.1037, tp = 1.1082, lots = 3.33, adx_out = 35\<rparr>,
      \<lparr>symbol = ''GER40'', score = NaN, bias = NEUTRAL, price = 1.1048,
       sl = 1.1048, tp = 1.1048, lots = 0, adx_out = 35\<rparr>,
      \<lparr>symbol = ''USDJPY'', score = Fin 88.7, bias = BULLISH, price = 150.52,
       sl = 150.22, tp = 151.12, lots = 0.26, adx_out = 45\<rparr>]"
    unfolding scan_cycle_def cf Let_def listsort_reverse_def score_lt_def
    by (simp add: binary_insert_def bisect.simps)
  show ?thesis unfolding r rf non_increasing_def by simp
qed

section \<open>Fault isolation\<close>



section \<open>Degenerate sizing\<close>

text \<open>
  Claim C8.  When the tick value or the stop distance in points is zero, and the inputs
  are present with a point size that is not zero, \<open>calculate_lot\<close> returns zero lots and
  the opportunity is still returned, with its bias, entry, stop, target and score.
\<close>

theorem degenerate_sizing_zero_lots:
  assumes "copy_rates_from_pos m s = Some n" "bars \<le> n" "last_row m s = Some c"
    and "symbol_info_tick m s = Some t" "symbol_info_of m s = Some si"
    and "account_info_of m = Some acct" "point si \<noteq> 0"
    and "trade_tick_value si = 0 \<or> sl_points_of (bias_of c) c t si = 0"
  shows "calculate_lot w m s (sl_points_of (bias_of c) c t si) = Inr 0
       \<and> (\<exists>d. analyze_symbol w m s = Some d \<and> lots d = 0 \<and> symbol d = s
              \<and> bias d = bias_of c \<and> price d = entry_of (bias_of c) t
              \<and> sl d = sl_of (bias_of c) c t \<and> tp d = tp_of (rr_ratio w) (bias_of c) c t
              \<and> score d = np_final_score (bias_of c) c t si
              \<and> (atr c \<noteq> 0 \<and> close c \<noteq> 0 \<longrightarrow> score d = Fin (final_score (bias_of c) c t si)))"
proof -
  have cl: "calculate_lot w m s (sl_points_of (bias_of c) c t si) = Inr 0"
    using assms(5,6,8) unfolding calculate_lot_def Let_def by auto
  from analyze_symbol_SomeI [OF assms(1-5,7) cl]
  show ?thesis using cl np_final_score_Fin [of c si "bias_of c" t] assms(7) by simp
qed

theorem degenerate_sizing_zero_lots_witness:
  "analyze_symbol ex_worker ex_terminal ''NZDUSD'' =
     Some \<lparr>symbol = ''NZDUSD'', score = Fin 55.9, bias = BULLISH, price = 1.1052,
           sl = 1.1037, tp = 1.1082, lots = 0, adx_out = 35\<rparr>
   \<and> analyze_symbol ex_worker ex_terminal ''USDCAD'' =
     Some \<lparr>symbol = ''USDCAD'', score = Fin 41.2, bias = BULLISH, price = 1.1052,
           sl = 1.1052, tp = 1.1052, lots = 0, adx_out = 35\<rparr>"
proof -
  let ?si = "ex_info\<lparr>trade_tick_value := 0\<rparr>"
  let ?c = "ex_row\<lparr>atr := 0\<rparr>"
  have h: "copy_rates_from_pos ex_terminal ''NZDUSD'' = Some 250" "bars \<le> 250"
    "last_row ex_terminal ''NZDUSD'' = Some ex_row"
    "symbol_info_tick ex_terminal ''NZDUSD'' = Some ex_tick"
    "symbol_info_of ex_terminal ''NZDUSD'' = Some ?si"
    "account_info_of ex_terminal = Some ex_account" "point ?si \<noteq> 0"
    "trade_tick_value ?si = 0 \<or> sl_points_of (bias_of ex_row) ex_row ex_tick ?si = 0"
    unfolding ex_terminal_def bars_def ex_info_def by simp_all
  have e: "bias_of ex_row = BULLISH" "entry_of BULLISH ex_tick = 1.1052"
    "sl_of BULLISH ex_row ex_tick = 1.1037"
    "tp_of (rr_ratio ex_worker) BULLISH ex_row ex_tick = 1.1082"
    "np_final_score BULLISH ex_row ex_tick ?si = Fin 55.9" "adx ex_row = 35"
    unfolding model_defs ex_defs Let_def by (simp_all add: round1_def py_round_def Let_def)
  from degenerate_sizing_zero_lots [OF h, of ex_worker]
  obtain d where d: "analyze_symbol ex_worker ex_terminal ''NZDUSD'' = Some d"
    "lots d = 0" "symbol d = ''NZDUSD''" "bias d = BULLISH" "price d = 1.1052"
    "sl d = 1.1037" "tp d = 1.1082" "score d = Fin 55.9"
    unfolding e by auto
  have "adx_out d = 35"
    using analyze_symbol_SomeD [OF d(1)] h(3) e(6) by auto
  with d have nzd: "analyze_symbol ex_worker ex_terminal ''NZDUSD'' =
     Some \<lparr>symbol = ''NZDUSD'', score = Fin 55.9, bias = BULLISH, price = 1.1052,
           sl = 1.1037, tp = 1.1082, lots = 0, adx_out = 35\<rparr>"
    by simp
  have h': "copy_rates_from_pos ex_terminal ''USDCAD'' = Some 250" "bars \<le> 250"
    "last_row ex_terminal ''USDCAD'' = Some ?c"
    "symbol_info_tick ex_terminal ''USDCAD'' = Some ex_tick"
    "symbol_info_of ex_terminal ''USDCAD'' = Some ex_info"
    "account_info_of ex_terminal = Some ex_account" "point ex_info \<noteq> 0"
    "trade_tick_value ex_info = 0 \<or> sl_points_of (bias_of ?c) ?c ex_tick ex_info = 0"
    unfolding ex_terminal_def bars_def ex_info_def ex_row_def sl_points_of_def sl_of_def
    by simp_all
  have e': "bias_of ?c = BULLISH" "entry_of BULLISH ex_tick = 1.1052"
    "sl_of BULLISH ?c ex_tick = 1.1052"
    "tp_of (rr_ratio ex_worker) BULLISH ?c ex_tick = 1.1052" "adx ?c = 35"
    "np_final_score BULLISH ?c ex_tick ex_info = Fin 41.2"
    unfolding model_defs ex_defs Let_def by (simp_all add: round1_def py_round_def Let_def)
  from degenerate_sizing_zero_lots [OF h', of ex_worker]
  obtain d' where d': "analyze_symbol ex_worker ex_terminal ''USDCAD'' = Some d'"
    "lots d' = 0" "symbol d' = ''USDCAD''" "bias d' = BULLISH" "price d' = 1.1052"
    "sl d' = 1.1052" "tp d' = 1.1052" "score d' = Fin 41.2"
    unfolding e' by auto
  have "adx_out d' = 35"
    using analyze_symbol_SomeD [OF d'(1)] h'(3) e'(5) by auto
  with d' have cad: "analyze_symbol ex_worker ex_terminal ''USDCAD'' =
     Some \<lparr>symbol = ''USDCAD'', score = Fin 41.2, bias = BULLISH, price = 1.1052,
           sl = 1.1052, tp = 1.1052, lots = 0, adx_out = 35\<rparr>"
    by simp
  from nzd cad show ?thesis by (rule conjI)
qed

section \<open>The defaults\<close>

text \<open>
  Claim C9 says that before any start command the risk percent is 0.5 and the
  reward:risk ratio is 2.0.  \<open>ScannerWorker.__init__\<close> sets the risk percent to 0.5 but the
  ratio to 1.5, while the spin box of the window starts at 2.0, which is the value that
  \<open>toggle_scan\<close> hands to \<open>set_config\<close>.
\<close>

theorem init_rr_ratio_is_not_the_default:
  "risk_per_trade ScannerWorker_init = 0.5
   \<and> rr_ratio ScannerWorker_init = 1.5
   \<and> rr_ratio ScannerWorker_init \<noteq> 2.0
   \<and> spin_risk_value = risk_per_trade ScannerWorker_init
   \<and> spin_rr_value = 2.0
   \<and> rr_ratio (toggle_scan_start selected ScannerWorker_init) = 2.0"
  unfolding ScannerWorker_init_def toggle_scan_start_def set_config_def
    spin_rr_value_def spin_risk_value_def
  by simp

section \<open>A neutral bias\<close>

text \<open>
  Claim C10.  When the close equals the EMA and an opportunity is returned, its bias is
  \<open>NEUTRAL\<close>, the momentum sub-score is 0, the structure distance is measured from the bid
  to the lower channel, and the setup is the bearish one: entry = bid,
  stop = entry + 1.5 ATR, target = entry - (stop - entry) rr_ratio.  Its score is the
  weighted sum with these sub-scores when the ATR and the close are not zero, and NaN when
  the ATR is zero.
\<close>

theorem neutral_takes_bearish_branch:
  assumes "analyze_symbol w m s = Some d"
    and "last_row m s = Some c" "symbol_info_tick m s = Some t" "symbol_info_of m s = Some si"
    and "close c = ema c"
  shows "bias d = NEUTRAL
       \<and> score_mom (bias d) c = 0
       \<and> dist_to_break (bias d) c t = \<bar>bid t - dcl c\<bar>
       \<and> price d = bid t \<and> sl d = price d + 1.5 * atr c
       \<and> tp d = price d - (sl d - price d) * rr_ratio w
       \<and> score d = np_final_score NEUTRAL c t si
       \<and> (atr c \<noteq> 0 \<and> close c \<noteq> 0 \<longrightarrow>
            score d = Fin (round1 (100 * (0.30 * score_trend c + 0.20 * 0
                            + 0.15 * score_vol c
                            + 0.25 * (1.0 - min (\<bar>bid t - dcl c\<bar> / (atr c * 1.5)) 1.0)
                            + 0.10 * score_liq c t si))))
       \<and> (atr c = 0 \<longrightarrow> score d = NaN)"
proof -
  have b: "bias_of c = NEUTRAL" using assms(5) unfolding bias_of_def by simp
  from analyze_symbol_SomeD [OF assms(1)] assms(2-4)
  have d: "bias d = NEUTRAL" "price d = entry_of NEUTRAL t"
    "sl d = sl_of NEUTRAL c t" "tp d = tp_of (rr_ratio w) NEUTRAL c t"
    "score d = np_final_score NEUTRAL c t si" "point si \<noteq> 0"
    using b by auto
  have fin: "np_final_score NEUTRAL c t si =
      Fin (round1 (100 * (0.30 * score_trend c + 0.20 * 0 + 0.15 * score_vol c
             + 0.25 * (1.0 - min (\<bar>bid t - dcl c\<bar> / (atr c * 1.5)) 1.0)
             + 0.10 * score_liq c t si)))"
    if "atr c \<noteq> 0" "close c \<noteq> 0"
    using np_final_score_Fin [OF that d(6), of NEUTRAL t]
    unfolding final_score_def score_mom_def score_struct_def dist_to_break_def by simp
  have nan: "np_final_score NEUTRAL c t si = NaN" if "atr c = 0"
    using that assms(5) by (rule np_final_score_NaN)
  have bear: "score_mom NEUTRAL c = 0 \<and> dist_to_break NEUTRAL c t = \<bar>bid t - dcl c\<bar>
       \<and> entry_of NEUTRAL t = bid t
       \<and> sl_of NEUTRAL c t = entry_of NEUTRAL t + 1.5 * atr c
       \<and> tp_of (rr_ratio w) NEUTRAL c t
           = entry_of NEUTRAL t - (sl_of NEUTRAL c t - entry_of NEUTRAL t) * rr_ratio w"
    unfolding tp_of_def sl_of_def entry_of_def ATR_MULTIPLIER_def score_mom_def
      dist_to_break_def
    by simp
  show ?thesis unfolding d(1-5) using bear fin nan by blast
qed

theorem neutral_takes_bearish_branch_witness:
  "analyze_symbol ex_worker ex_terminal ''AUDUSD'' =
     Some \<lparr>symbol = ''AUDUSD'', score = Fin 10.3, bias = NEUTRAL, price = 1.1048,
           sl = 1.1063, tp = 1.1018, lots = 3.33, adx_out = 35\<rparr>
   \<and> bid ex_tick = 1.1048
   \<and> analyze_symbol ex_worker ex_terminal ''GER40'' =
     Some \<lparr>symbol = ''GER40'', score = NaN, bias = NEUTRAL, price = 1.1048,
           sl = 1.1048, tp = 1.1048, lots = 0, adx_out = 35\<rparr>"
proof -
  let ?c = "ex_row\<lparr>close := 1.1000\<rparr>"
  let ?d = "\<lparr>symbol = ''AUDUSD'', score = Fin 10.3, bias = NEUTRAL, price = 1.1048,
             sl = 1.1063, tp = 1.1018, lots = 3.33, adx_out = 35\<rparr>"
  let ?g = "ex_row\<lparr>close := 1.1000, atr := 0\<rparr>"
  let ?e = "\<lparr>symbol = ''GER40'', score = NaN, bias = NEUTRAL, price = 1.1048,
             sl = 1.1048, tp = 1.1048, lots = 0, adx_out = 35\<rparr>"
  have a: "analyze_symbol ex_worker ex_terminal ''AUDUSD'' = Some ?d"
    unfolding model_defs ex_defs Let_def by (simp add: round1_def py_round_def Let_def)
  have h: "last_row ex_terminal ''AUDUSD'' = Some ?c"
    "symbol_info_tick ex_terminal ''AUDUSD'' = Some ex_tick"
    "symbol_info_of ex_terminal ''AUDUSD'' = Some ex_info"
    "close ?c = ema ?c"
    unfolding ex_terminal_def ex_row_def by simp_all
  have b: "analyze_symbol ex_worker ex_terminal ''GER40'' = Some ?e"
    unfolding model_defs ex_defs Let_def by (simp add: round1_def py_round_def Let_def)
  have k: "last_row ex_terminal ''GER40'' = Some ?g"
    "symbol_info_tick ex_terminal ''GER40'' = Some ex_tick"
    "symbol_info_of ex_terminal ''GER40'' = Some ex_info"
    "close ?g = ema ?g"
    unfolding ex_terminal_def ex_row_def by simp_all
  from neutral_takes_bearish_branch [OF a h] neutral_takes_bearish_branch [OF b k] a b
  show ?thesis by simp
qed

end
